theory Spec2Isabelle
  imports Main
begin

section \<open>The \<open>meltano run\<close> command: data model\<close>

text \<open>
  The development embeds \<^verbatim>\<open>src/meltano/cli/run.py\<close>: the command \<^verbatim>\<open>run\<close> and its
  helper \<^verbatim>\<open>_run_blocks\<close>. Everything the two functions do to the outside world (tracker
  events, log records, awaiting a block's \<^verbatim>\<open>run()\<close>, the legacy tracker) is recorded, in
  program order, in a trace carried by an explicit state.
\<close>

subsection \<open>Exceptions\<close>

text \<open>
  Values of \<open>exn\<close> are instances of Python's \<^verbatim>\<open>Exception\<close>, the class that every handler of
  the source names (\<^verbatim>\<open>except RunnerError\<close>, \<^verbatim>\<open>except Exception\<close>). \<open>RunnerError\<close> carries its
  message and its \<^verbatim>\<open>exitcodes\<close>; \<open>CliError\<close> its message and its \<^verbatim>\<open>__cause__\<close> (set by
  \<^verbatim>\<open>raise ... from err\<close>); \<open>OtherException\<close> is an instance of any other class, given by the
  class name and the message. Signals that are not instances of \<^verbatim>\<open>Exception\<close>
  (\<^verbatim>\<open>KeyboardInterrupt\<close>, task cancellation) are not failures of a unit and are outside this
  type.
\<close>

datatype exn =
    RunnerError string "int list"
  | CliError string "exn option"
  | OtherException string string

text \<open>\<^verbatim>\<open>str(err)\<close>, as the f-string of the \<^verbatim>\<open>CliError\<close> message formats it.\<close>

fun str_exn :: "exn \<Rightarrow> string" where
  "str_exn (RunnerError m codes) = m"
| "str_exn (CliError m cause) = m"
| "str_exn (OtherException cls m) = m"

fun is_RunnerError :: "exn \<Rightarrow> bool" where
  "is_RunnerError (RunnerError m codes) = True"
| "is_RunnerError e = False"

subsection \<open>Blocks\<close>

text \<open>
  \<^verbatim>\<open>parsed_blocks: list[BlockSet | PluginCommandBlock]\<close>. A block is known to
  \<^verbatim>\<open>_run_blocks\<close> by the name of its concrete class (\<^verbatim>\<open>blk.__class__.__name__\<close>), by the
  attributes the dry run reads (\<^verbatim>\<open>blk.blocks\<close>, each member given by its \<^verbatim>\<open>string_id\<close>; or
  \<^verbatim>\<open>blk.string_id\<close> and \<^verbatim>\<open>blk.command\<close>), and by what awaiting \<^verbatim>\<open>blk.run()\<close> does: it
  returns (\<open>Inr ()\<close>) or raises (\<open>Inl e\<close>).
\<close>

datatype block =
    BlockSet (class_name: string) (blocks: "string list") (run_result: "exn + unit")
  | PluginCommandBlock (class_name: string) (string_id: string) (command: string)
      (run_result: "exn + unit")

subsection \<open>Tracker, logger and the trace of effects\<close>

datatype cli_event = Cli_aborted | Cli_completed | Cli_failed

datatype block_events = initialized | completed | failed

text \<open>
  Modelled from the spec: \<^verbatim>\<open>PluginsTrackingContext\<close> and its \<^verbatim>\<open>from_block\<close> are defined in
  meltano.core.tracking.contexts.plugins, outside \<^verbatim>\<open>run.py\<close>. The spec says that context
  objects are derived purely from a unit's constituent plugin identities. \<open>OtherContext\<close> stands for the contexts that
  the rest of the program has attached to the tracker.
\<close>

datatype tracking_ctx = PluginsTrackingContext "string list" | OtherContext string

fun from_block :: "block \<Rightarrow> tracking_ctx" where
  "from_block (BlockSet nm plugins r) = PluginsTrackingContext plugins"
| "from_block (PluginCommandBlock nm sid cmd r) = PluginsTrackingContext [sid]"

datatype log_level = Debug | Info | Error

datatype log_value =
    LStr string
  | LStrs "string list"
  | LNat nat
  | LBool bool
  | LExn exn
  | LCodes "int list"
  | LNone

text \<open>
  One entry of the trace per call that leaves the two functions. Tracker events carry the
  contexts attached to the tracker at the moment of the call. Beside the trace, \<open>scopes\<close>
  keeps, for every entry of the trace, the contexts that were attached to the tracker at
  the moment of that call, whatever the call was (an event, a log record, an awaited
  \<^verbatim>\<open>run()\<close>).
\<close>

datatype effect =
    CommandEvent cli_event "tracking_ctx list"
  | BlockEvent string block_events "tracking_ctx list"
  | Log log_level string "(string \<times> log_value) list"
  | ChangeConsoleLogLevel
  | ParserCalled "string list" bool bool bool
  | ValidateCalled "block list"
  | RunAwaited nat
  | LegacyTrackRun "string list"

record world =
  contexts :: "tracking_ctx list"
  trace :: "effect list"
  scopes :: "tracking_ctx list list"

definition emit :: "effect \<Rightarrow> world \<Rightarrow> world" where
  "emit e w = w\<lparr>trace := trace w @ [e], scopes := scopes w @ [contexts w]\<rparr>"

definition track_command_event :: "cli_event \<Rightarrow> world \<Rightarrow> world" where
  "track_command_event ev w = emit (CommandEvent ev (contexts w)) w"

definition track_block_event :: "string \<Rightarrow> block_events \<Rightarrow> world \<Rightarrow> world" where
  "track_block_event blk_name ev w = emit (BlockEvent blk_name ev (contexts w)) w"

text \<open>
  Modelled from the spec: \<^verbatim>\<open>Tracker.with_contexts\<close> is defined in meltano.core.tracking,
  outside \<^verbatim>\<open>run.py\<close>. The spec describes it as a scope: the context is attached to the
  tracker for the duration of the body and detached when the body is left.
\<close>

definition with_contexts :: "tracking_ctx \<Rightarrow> (world \<Rightarrow> world) \<Rightarrow> world \<Rightarrow> world" where
  "with_contexts c body w =
     (let prev_contexts = contexts w;
          w' = body (w\<lparr>contexts := prev_contexts @ [c]\<rparr>)
      in w'\<lparr>contexts := prev_contexts\<rparr>)"

subsection \<open>Formatting\<close>

definition digit_char :: "nat \<Rightarrow> char" where
  "digit_char d = ''0123456789'' ! d"

fun str_nat :: "nat \<Rightarrow> string" where
  "str_nat n =
     (if n < 10 then [digit_char n] else str_nat (n div 10) @ [digit_char (n mod 10)])"

declare str_nat.simps [simp del]

section \<open>\<^verbatim>\<open>_run_blocks\<close>\<close>

text \<open>The two \<^verbatim>\<open>logger.info\<close> calls of the dry run (lines 137 to 148).\<close>

fun dry_run_log :: "nat \<Rightarrow> nat \<Rightarrow> block \<Rightarrow> effect" where
  "dry_run_log idx len (BlockSet nm plugins r) =
     Log Info (''Dry run, but would have run block '' @ str_nat (idx + 1) @ ''/''
                 @ str_nat len @ ''.'')
       [(''block_type'', LStr nm), (''comprised_of'', LStrs plugins)]"
| "dry_run_log idx len (PluginCommandBlock nm sid cmd r) =
     Log Info (''Dry run, but would have run block '' @ str_nat (idx + 1) @ ''/''
                 @ str_nat len @ ''.'')
       [(''block_type'', LStr nm), (''comprised_of'', LStr (sid @ '':'' @ cmd))]"

text \<open>
  What follows \<^verbatim>\<open>await blk.run()\<close> (lines 151 to 180): the handler for \<^verbatim>\<open>RunnerError\<close>,
  the handler for every other exception, and the code after the \<^verbatim>\<open>try\<close> statement.
\<close>

fun after_run ::
  "nat \<Rightarrow> string \<Rightarrow> tracking_ctx \<Rightarrow> exn + unit \<Rightarrow> world \<Rightarrow> (exn + unit) \<times> world"
where
  "after_run idx blk_name tracking_ctx (Inl (RunnerError m codes)) w =
     (let w1 = emit (Log Error ''Block run completed.''
                  [(''set_number'', LNat idx), (''block_type'', LStr blk_name),
                   (''success'', LBool False), (''err'', LExn (RunnerError m codes)),
                   (''exit_codes'', LCodes codes)]) w;
          w2 = with_contexts tracking_ctx (track_block_event blk_name failed) w1
      in (Inl (CliError (''Run invocation could not be completed as block failed: ''
                           @ str_exn (RunnerError m codes))
                 (Some (RunnerError m codes))), w2))"
| "after_run idx blk_name tracking_ctx (Inl bare_err) w =
     (Inl bare_err, with_contexts tracking_ctx (track_block_event blk_name failed) w)"
| "after_run idx blk_name tracking_ctx (Inr u) w =
     (let w1 = emit (Log Info ''Block run completed.''
                  [(''set_number'', LNat idx), (''block_type'', LStr blk_name),
                   (''success'', LBool True), (''err'', LNone)]) w
      in (Inr (), with_contexts tracking_ctx (track_block_event blk_name completed) w1))"

text \<open>The body of the \<^verbatim>\<open>for\<close> loop, for the block \<open>blk\<close> at position \<open>idx\<close>.\<close>

definition run_block ::
  "nat \<Rightarrow> nat \<Rightarrow> block \<Rightarrow> bool \<Rightarrow> world \<Rightarrow> (exn + unit) \<times> world"
where
  "run_block idx len blk dry_run w =
     (let blk_name = class_name blk;
          tracking_ctx = from_block blk;
          w1 = with_contexts tracking_ctx (track_block_event blk_name initialized) w
      in if dry_run then (Inr (), emit (dry_run_log idx len blk) w1)
         else after_run idx blk_name tracking_ctx (run_result blk) (emit (RunAwaited idx) w1))"

text \<open>
  \<^verbatim>\<open>for idx, blk in enumerate(parsed_blocks)\<close>: an exception that leaves the body leaves
  the loop.
\<close>

fun run_blocks_from ::
  "nat \<Rightarrow> nat \<Rightarrow> block list \<Rightarrow> bool \<Rightarrow> world \<Rightarrow> (exn + unit) \<times> world"
where
  "run_blocks_from idx len [] dry_run w = (Inr (), w)"
| "run_blocks_from idx len (blk # rest) dry_run w =
     (case run_block idx len blk dry_run w of
        (Inl err, w') \<Rightarrow> (Inl err, w')
      | (Inr u, w') \<Rightarrow> run_blocks_from (Suc idx) len rest dry_run w')"

definition run_blocks :: "block list \<Rightarrow> bool \<Rightarrow> world \<Rightarrow> (exn + unit) \<times> world" where
  "run_blocks parsed_blocks dry_run w =
     run_blocks_from 0 (length parsed_blocks) parsed_blocks dry_run w"

section \<open>The command \<^verbatim>\<open>run\<close>\<close>

text \<open>
  The collaborators that \<^verbatim>\<open>run\<close> calls and that other modules define are
  parameters: \<open>find_blocks\<close> is the outcome of constructing the \<^verbatim>\<open>BlockParser\<close> over the
  tokens and the three flags and of listing \<^verbatim>\<open>parser.find_blocks(0)\<close>;
  \<open>validate_block_sets\<close> is the verdict of the function of that name; \<open>cli_log_level\<close> is
  \<^verbatim>\<open>ProjectSettingsService.config_override.get("cli.log_level")\<close>.
\<close>

record collaborators =
  find_blocks :: "string list \<Rightarrow> bool \<Rightarrow> bool \<Rightarrow> bool \<Rightarrow> exn + block list"
  validate_block_sets :: "block list \<Rightarrow> bool"
  cli_log_level :: "string option"

text \<open>Lines 90 to 93. An absent setting and an empty string are both falsy.\<close>

definition dry_run_setup :: "collaborators \<Rightarrow> bool \<Rightarrow> world \<Rightarrow> world" where
  "dry_run_setup env dry_run w =
     (if dry_run \<and> (cli_log_level env = None \<or> cli_log_level env = Some [])
      then emit ChangeConsoleLogLevel
             (emit (Log Info ''Setting 'console' handler log level to 'debug' for dry run'' [])
                w)
      else w)"

definition run ::
  "collaborators \<Rightarrow> bool \<Rightarrow> bool \<Rightarrow> bool \<Rightarrow> bool \<Rightarrow> string list \<Rightarrow> world
     \<Rightarrow> (exn + unit) \<times> world"
where
  "run env dry_run full_refresh no_state_update force blks w =
     (let w0 = emit (ParserCalled blks full_refresh no_state_update force)
                 (dry_run_setup env dry_run w)
      in case find_blocks env blks full_refresh no_state_update force of
           Inl parser_err \<Rightarrow> (Inl parser_err, track_command_event Cli_aborted w0)
         | Inr parsed_blocks \<Rightarrow>
             if parsed_blocks = []
             then (Inr (), emit (Log Info ''No valid blocks found.'' [])
                             (track_command_event Cli_aborted w0))
             else
               let w1 = emit (ValidateCalled parsed_blocks) w0
               in if validate_block_sets env parsed_blocks
                  then
                    (case run_blocks parsed_blocks dry_run
                            (emit (Log Debug
                               ''All ExtractLoadBlocks validated, starting execution.'' []) w1)
                     of
                       (Inl err, w2) \<Rightarrow> (Inl err, track_command_event Cli_failed w2)
                     | (Inr u, w2) \<Rightarrow>
                         (Inr (), emit (LegacyTrackRun blks)
                                    (track_command_event Cli_completed w2)))
                  else (Inl (CliError ''Some ExtractLoadBlocks set failed validation.'' None),
                        track_command_event Cli_aborted w1))"

section \<open>Vocabulary of the statements\<close>

text \<open>
  \<open>start cs\<close> is a tracker with the contexts \<open>cs\<close> attached and nothing emitted yet;
  \<open>emitted w w'\<close> is what was appended to the trace between \<open>w\<close> and \<open>w'\<close>, and
  \<open>emitted_scopes w w'\<close> the contexts that were attached at each of these calls.
  \<open>scope_of base e\<close> is the scope expected of a call: the contexts a block event carries,
  and \<open>base\<close> for every other call; \<open>appended es w\<close> is \<open>w\<close> after the calls \<open>es\<close>, each made
  in the scope expected of it. The projections
  \<open>awaited\<close>, \<open>block_events_of\<close>, \<open>command_events_of\<close>, \<open>block_event_scopes\<close> and
  \<open>command_event_scopes\<close> read a trace: the indices of the awaited \<^verbatim>\<open>run()\<close> calls, the block
  events by class name and kind, the run-level events, and the contexts each of them
  carried. \<open>executed_units\<close> are the units of a plan up to and including the first whose
  \<^verbatim>\<open>run()\<close> raises, and \<open>unit_events\<close> are the two block events expected of one such unit.
  \<open>body_effects\<close>, \<open>loop_effects\<close> and \<open>setup_effects\<close> are what one loop iteration, the rest
  of the loop and lines 90 to 93 append to an empty trace, and \<open>before_blocks\<close> is the state
  in which \<^verbatim>\<open>run\<close> calls \<^verbatim>\<open>_run_blocks\<close>. \<open>example_plan\<close> and \<open>example_env\<close> are concrete
  inputs.
\<close>

definition start :: "tracking_ctx list \<Rightarrow> world" where
  "start cs = \<lparr>contexts = cs, trace = [], scopes = []\<rparr>"

definition emitted :: "world \<Rightarrow> world \<Rightarrow> effect list" where
  "emitted w w' = drop (length (trace w)) (trace w')"

definition emitted_scopes :: "world \<Rightarrow> world \<Rightarrow> tracking_ctx list list" where
  "emitted_scopes w w' = drop (length (scopes w)) (scopes w')"

fun scope_of :: "tracking_ctx list \<Rightarrow> effect \<Rightarrow> tracking_ctx list" where
  "scope_of base (BlockEvent nm ev cs) = cs"
| "scope_of base e = base"

definition appended :: "effect list \<Rightarrow> world \<Rightarrow> world" where
  "appended es w =
     w\<lparr>trace := trace w @ es, scopes := scopes w @ map (scope_of (contexts w)) es\<rparr>"

definition body_effects :: "tracking_ctx list \<Rightarrow> nat \<Rightarrow> nat \<Rightarrow> block \<Rightarrow> bool \<Rightarrow> effect list" where
  "body_effects cs idx len b d = trace (snd (run_block idx len b d (start cs)))"

fun loop_effects :: "tracking_ctx list \<Rightarrow> nat \<Rightarrow> nat \<Rightarrow> block list \<Rightarrow> bool \<Rightarrow> effect list" where
  "loop_effects cs idx len [] d = []"
| "loop_effects cs idx len (b # bs) d =
     body_effects cs idx len b d
       @ (if \<not> d \<and> isl (run_result b) then [] else loop_effects cs (Suc idx) len bs d)"

fun run_index :: "effect \<Rightarrow> nat list" where
  "run_index (RunAwaited i) = [i]"
| "run_index e = []"

definition awaited :: "effect list \<Rightarrow> nat list" where
  "awaited es = concat (map run_index es)"

fun block_event :: "effect \<Rightarrow> (string \<times> block_events) list" where
  "block_event (BlockEvent nm ev cs) = [(nm, ev)]"
| "block_event e = []"

definition block_events_of :: "effect list \<Rightarrow> (string \<times> block_events) list" where
  "block_events_of es = concat (map block_event es)"

fun command_event :: "effect \<Rightarrow> cli_event list" where
  "command_event (CommandEvent ev cs) = [ev]"
| "command_event e = []"

definition command_events_of :: "effect list \<Rightarrow> cli_event list" where
  "command_events_of es = concat (map command_event es)"

fun executed_units :: "block list \<Rightarrow> block list" where
  "executed_units [] = []"
| "executed_units (b # bs) = (if isl (run_result b) then [b] else b # executed_units bs)"

definition unit_events :: "block \<Rightarrow> (string \<times> block_events) list" where
  "unit_events b =
     [(class_name b, initialized),
      (class_name b, case run_result b of Inl e \<Rightarrow> failed | Inr u \<Rightarrow> completed)]"

definition setup_effects :: "collaborators \<Rightarrow> bool \<Rightarrow> effect list" where
  "setup_effects env d = trace (dry_run_setup env d (start []))"

definition before_blocks ::
  "collaborators \<Rightarrow> bool \<Rightarrow> bool \<Rightarrow> bool \<Rightarrow> bool \<Rightarrow> string list \<Rightarrow> block list \<Rightarrow> world \<Rightarrow> world"
where
  "before_blocks env d fr nsu f blks plan w =
     emit (Log Debug ''All ExtractLoadBlocks validated, starting execution.'' [])
       (emit (ValidateCalled plan)
          (emit (ParserCalled blks fr nsu f) (dry_run_setup env d w)))"

fun block_event_scope :: "effect \<Rightarrow> (string \<times> tracking_ctx list) list" where
  "block_event_scope (BlockEvent nm ev cs) = [(nm, cs)]"
| "block_event_scope e = []"

definition block_event_scopes :: "effect list \<Rightarrow> (string \<times> tracking_ctx list) list" where
  "block_event_scopes es = concat (map block_event_scope es)"

fun command_event_scope :: "effect \<Rightarrow> tracking_ctx list list" where
  "command_event_scope (CommandEvent ev cs) = [cs]"
| "command_event_scope e = []"

definition command_event_scopes :: "effect list \<Rightarrow> tracking_ctx list list" where
  "command_event_scopes es = concat (map command_event_scope es)"

definition example_plan :: "block list" where
  "example_plan =
     [BlockSet ''ExtractLoadBlocks'' [''tap-a'', ''target-b''] (Inr ()),
      PluginCommandBlock ''InvokerCommand'' ''dbt'' ''run'' (Inl (RunnerError ''boom'' [1])),
      PluginCommandBlock ''InvokerCommand'' ''dbt'' ''test'' (Inr ())]"

definition example_env :: "exn + block list \<Rightarrow> bool \<Rightarrow> collaborators" where
  "example_env parsed valid =
     \<lparr>find_blocks = (\<lambda>blks full_refresh no_state_update force. parsed),
      validate_block_sets = (\<lambda>plan. valid),
      cli_log_level = None\<rparr>"

section \<open>Auxiliary lemmas\<close>

lemma appended_simps [simp]:
  "contexts (appended es w) = contexts w"
  "trace (appended es w) = trace w @ es"
  "scopes (appended es w) = scopes w @ map (scope_of (contexts w)) es"
  "appended es (appended es' w) = appended (es' @ es) w"
  by (simp_all add: appended_def)

lemma appended_Nil [simp]: "appended [] w = w"
  by (simp add: appended_def)

lemma start_simps [simp]:
  "contexts (start cs) = cs" "trace (start cs) = []" "scopes (start cs) = []"
  by (simp_all add: start_def)

lemma emit_appended: "scope_of (contexts w) e = contexts w \<Longrightarrow> emit e w = appended [e] w"
  by (simp add: emit_def appended_def)

lemma contexts_emit [simp]: "contexts (emit e w) = contexts w"
  by (simp add: emit_def)

lemma trace_emit [simp]: "trace (emit e w) = trace w @ [e]"
  by (simp add: emit_def)

lemma scopes_emit [simp]: "scopes (emit e w) = scopes w @ [contexts w]"
  by (simp add: emit_def)

lemma track_command_event_appended:
  "track_command_event ev w = appended [CommandEvent ev (contexts w)] w"
  by (simp add: track_command_event_def emit_appended)

lemma with_contexts_track [simp]:
  "with_contexts c (track_block_event nm ev) w =
     appended [BlockEvent nm ev (contexts w @ [c])] w"
  by (simp add: with_contexts_def track_block_event_def emit_def appended_def Let_def)

lemma scope_of_dry_run_log [simp]: "scope_of base (dry_run_log idx len b) = base"
  by (cases b) simp_all

lemma run_block_dry:
  "run_block idx len b True w =
     (Inr (), appended [BlockEvent (class_name b) initialized (contexts w @ [from_block b]),
                      dry_run_log idx len b] w)"
  by (simp add: run_block_def Let_def emit_appended)

lemma run_block_ok:
  "run_result b = Inr u \<Longrightarrow> run_block idx len b False w =
     (Inr (), appended
        [BlockEvent (class_name b) initialized (contexts w @ [from_block b]),
         RunAwaited idx,
         Log Info ''Block run completed.''
           [(''set_number'', LNat idx), (''block_type'', LStr (class_name b)),
            (''success'', LBool True), (''err'', LNone)],
         BlockEvent (class_name b) completed (contexts w @ [from_block b])] w)"
  by (simp add: run_block_def Let_def emit_appended)

lemma run_block_runner_error:
  "run_result b = Inl (RunnerError m codes) \<Longrightarrow> run_block idx len b False w =
     (Inl (CliError (''Run invocation could not be completed as block failed: '' @ m)
             (Some (RunnerError m codes))),
      appended
        [BlockEvent (class_name b) initialized (contexts w @ [from_block b]),
         RunAwaited idx,
         Log Error ''Block run completed.''
           [(''set_number'', LNat idx), (''block_type'', LStr (class_name b)),
            (''success'', LBool False), (''err'', LExn (RunnerError m codes)),
            (''exit_codes'', LCodes codes)],
         BlockEvent (class_name b) failed (contexts w @ [from_block b])] w)"
  by (simp add: run_block_def Let_def emit_appended)

lemma run_block_other_error:
  "run_result b = Inl e \<Longrightarrow> \<not> is_RunnerError e \<Longrightarrow> run_block idx len b False w =
     (Inl e,
      appended
        [BlockEvent (class_name b) initialized (contexts w @ [from_block b]),
         RunAwaited idx,
         BlockEvent (class_name b) failed (contexts w @ [from_block b])] w)"
  by (cases e) (simp_all add: run_block_def Let_def emit_appended)

lemma emitted_append [simp]: "emitted w (appended out w) = out"
  by (simp add: emitted_def)

lemma emitted_scopes_appended [simp]:
  "emitted_scopes w (appended out w) = map (scope_of (contexts w)) out"
  by (simp add: emitted_scopes_def)

lemma run_block_frame:
  "snd (run_block idx len b d w) = appended (body_effects (contexts w) idx len b d) w"
proof (cases d)
  case True
  then show ?thesis
    by (simp add: run_block_dry body_effects_def)
next
  case False
  show ?thesis
  proof (cases "run_result b")
    case (Inr u)
    with False show ?thesis
      by (simp add: run_block_ok body_effects_def)
  next
    case (Inl e)
    show ?thesis
    proof (cases "is_RunnerError e")
      case True
      then obtain m codes where "e = RunnerError m codes" by (cases e) auto
      with Inl False show ?thesis
        by (simp add: run_block_runner_error body_effects_def)
    next
      case nr: False
      with Inl False show ?thesis
        by (simp add: run_block_other_error body_effects_def)
    qed
  qed
qed

lemma run_block_isl:
  "isl (fst (run_block idx len b d w)) \<longleftrightarrow> \<not> d \<and> isl (run_result b)"
proof (cases "run_result b")
  case (Inr u)
  then show ?thesis by (cases d) (simp_all add: run_block_dry run_block_ok)
next
  case (Inl e)
  then show ?thesis
    by (cases d; cases e) (simp_all add: run_block_def Let_def)
qed

lemma run_blocks_from_frame:
  "snd (run_blocks_from idx len bs d w) = appended (loop_effects (contexts w) idx len bs d) w"
proof (induction bs arbitrary: idx w)
  case Nil
  show ?case by simp
next
  case (Cons b bs)
  obtain r w' where rb: "run_block idx len b d w = (r, w')" by (cases "run_block idx len b d w")
  have w': "w' = appended (body_effects (contexts w) idx len b d) w"
    using run_block_frame [of idx len b d w] rb by simp
  have r: "isl r \<longleftrightarrow> \<not> d \<and> isl (run_result b)"
    using run_block_isl [of idx len b d w] rb by simp
  show ?case
  proof (cases r)
    case (Inl e)
    with rb w' r show ?thesis by simp
  next
    case (Inr u)
    with rb w' r Cons.IH [of "Suc idx" w'] show ?thesis by auto
  qed
qed

lemma awaited_simps [simp]:
  "awaited [] = []" "awaited (e # es) = run_index e @ awaited es"
  "awaited (es @ es') = awaited es @ awaited es'"
  by (simp_all add: awaited_def)

lemma block_events_of_simps [simp]:
  "block_events_of [] = []" "block_events_of (e # es) = block_event e @ block_events_of es"
  "block_events_of (es @ es') = block_events_of es @ block_events_of es'"
  by (simp_all add: block_events_of_def)

lemma command_events_of_simps [simp]:
  "command_events_of [] = []"
  "command_events_of (e # es) = command_event e @ command_events_of es"
  "command_events_of (es @ es') = command_events_of es @ command_events_of es'"
  by (simp_all add: command_events_of_def)

lemma dry_run_log_is_Log [simp]:
  "run_index (dry_run_log idx len b) = []" "block_event (dry_run_log idx len b) = []"
  "command_event (dry_run_log idx len b) = []"
  by (cases b; simp)+

lemma body_effects_dry:
  "body_effects cs idx len b True =
     [BlockEvent (class_name b) initialized (cs @ [from_block b]), dry_run_log idx len b]"
  by (simp add: body_effects_def run_block_dry)

lemma body_effects_ok:
  "run_result b = Inr u \<Longrightarrow> body_effects cs idx len b False =
     [BlockEvent (class_name b) initialized (cs @ [from_block b]),
      RunAwaited idx,
      Log Info ''Block run completed.''
        [(''set_number'', LNat idx), (''block_type'', LStr (class_name b)),
         (''success'', LBool True), (''err'', LNone)],
      BlockEvent (class_name b) completed (cs @ [from_block b])]"
  by (simp add: body_effects_def run_block_ok)

lemma body_effects_runner_error:
  "run_result b = Inl (RunnerError m codes) \<Longrightarrow> body_effects cs idx len b False =
     [BlockEvent (class_name b) initialized (cs @ [from_block b]),
      RunAwaited idx,
      Log Error ''Block run completed.''
        [(''set_number'', LNat idx), (''block_type'', LStr (class_name b)),
         (''success'', LBool False), (''err'', LExn (RunnerError m codes)),
         (''exit_codes'', LCodes codes)],
      BlockEvent (class_name b) failed (cs @ [from_block b])]"
  by (simp add: body_effects_def run_block_runner_error)

lemma body_effects_other_error:
  "run_result b = Inl e \<Longrightarrow> \<not> is_RunnerError e \<Longrightarrow> body_effects cs idx len b False =
     [BlockEvent (class_name b) initialized (cs @ [from_block b]),
      RunAwaited idx,
      BlockEvent (class_name b) failed (cs @ [from_block b])]"
  by (simp add: body_effects_def run_block_other_error)

lemma body_effects_cases:
  obtains (ok) u where "run_result b = Inr u"
  | (runner) m codes where "run_result b = Inl (RunnerError m codes)"
  | (other) e where "run_result b = Inl e" "\<not> is_RunnerError e"
proof (cases "run_result b")
  case (Inl e)
  then show ?thesis by (cases e) (auto intro: runner other)
next
  case (Inr u)
  then show ?thesis by (rule ok)
qed

lemma awaited_body:
  "awaited (body_effects cs idx len b d) = (if d then [] else [idx])"
  by (cases b rule: body_effects_cases)
    (cases d; simp add: body_effects_dry body_effects_ok body_effects_runner_error
       body_effects_other_error)+

lemma block_events_body:
  "block_events_of (body_effects cs idx len b d) =
     (if d then [(class_name b, initialized)] else unit_events b)"
  by (cases b rule: body_effects_cases)
    (cases d; simp add: body_effects_dry body_effects_ok body_effects_runner_error
       body_effects_other_error unit_events_def)+

lemma command_events_body:
  "command_events_of (body_effects cs idx len b d) = []"
  by (cases b rule: body_effects_cases)
    (cases d; simp add: body_effects_dry body_effects_ok body_effects_runner_error
       body_effects_other_error)+

lemma awaited_loop:
  "awaited (loop_effects cs idx len bs False) = [idx..<idx + length (executed_units bs)]"
proof (induction bs arbitrary: idx)
  case Nil
  show ?case by simp
next
  case (Cons b bs)
  show ?case
    by (simp add: awaited_body Cons.IH upt_rec [of idx])
qed

lemma awaited_loop_dry: "awaited (loop_effects cs idx len bs True) = []"
  by (induction bs arbitrary: idx) (simp_all add: awaited_body)

lemma block_events_loop:
  "block_events_of (loop_effects cs idx len bs False) = concat (map unit_events (executed_units bs))"
  by (induction bs arbitrary: idx) (simp_all add: block_events_body)

lemma block_events_loop_dry:
  "block_events_of (loop_effects cs idx len bs True) = map (\<lambda>b. (class_name b, initialized)) bs"
  by (induction bs arbitrary: idx) (simp_all add: block_events_body)

lemma command_events_loop: "command_events_of (loop_effects cs idx len bs d) = []"
  by (induction bs arbitrary: idx) (simp_all add: command_events_body)

lemma dry_run_setup_frame:
  "dry_run_setup env d w = appended (setup_effects env d) w"
  by (simp add: dry_run_setup_def setup_effects_def emit_appended)

lemma setup_effects_quiet [simp]:
  "awaited (setup_effects env d) = []" "block_events_of (setup_effects env d) = []"
  "command_events_of (setup_effects env d) = []"
  by (simp_all add: dry_run_setup_def setup_effects_def start_def)

lemma run_block_len: "run_block idx len b False w = run_block idx len' b False w"
  by (simp add: run_block_def)

lemma body_effects_len: "body_effects cs idx len b False = body_effects cs idx len' b False"
  by (simp add: body_effects_def run_block_len [of idx len b _ len'])

lemma loop_effects_len: "loop_effects cs idx len bs False = loop_effects cs idx len' bs False"
  by (induction bs arbitrary: idx) (simp_all add: body_effects_len [of _ _ len _ len'])

lemma run_blocks_from_len:
  "run_blocks_from idx len bs False w = run_blocks_from idx len' bs False w"
  by (induction bs arbitrary: idx w)
    (simp_all add: run_block_len [of _ len _ _ len'] split: prod.splits sum.splits)

lemma run_blocks_from_isl:
  "isl (fst (run_blocks_from idx len bs d w)) \<longleftrightarrow> \<not> d \<and> (\<exists>b\<in>set bs. isl (run_result b))"
proof (induction bs arbitrary: idx w)
  case Nil
  show ?case by simp
next
  case (Cons b bs)
  obtain r w' where rb: "run_block idx len b d w = (r, w')" by (cases "run_block idx len b d w")
  have r: "isl r \<longleftrightarrow> \<not> d \<and> isl (run_result b)"
    using run_block_isl [of idx len b d w] rb by simp
  show ?case
  proof (cases r)
    case (Inl e)
    with rb r show ?thesis by auto
  next
    case (Inr u)
    with rb r Cons.IH [of "Suc idx" w'] show ?thesis by auto
  qed
qed

lemma not_isl_unit: "\<not> isl r \<Longrightarrow> r = Inr ()" for r :: "exn + unit"
  by (cases r) simp_all

lemma run_blocks_from_cut:
  "k < length bs \<Longrightarrow> isl (run_result (bs ! k)) \<Longrightarrow>
   run_blocks_from idx len bs False w = run_blocks_from idx len' (take (Suc k) bs) False w"
proof (induction bs arbitrary: idx w k)
  case Nil
  then show ?case by simp
next
  case (Cons b bs)
  obtain r w' where rb: "run_block idx len b False w = (r, w')"
    by (cases "run_block idx len b False w")
  then have rb': "run_block idx len' b False w = (r, w')"
    using run_block_len [of idx len b w len'] by simp
  have r: "isl r \<longleftrightarrow> isl (run_result b)"
    using run_block_isl [of idx len b False w] rb by simp
  show ?case
  proof (cases r)
    case (Inl e)
    with rb rb' show ?thesis by simp
  next
    case (Inr u)
    with r have ok: "\<not> isl (run_result b)" by simp
    with Cons.prems obtain j where k: "k = Suc j" by (cases k) auto
    with Cons.prems have "j < length bs" "isl (run_result (bs ! j))" by auto
    from Cons.IH [OF this, of "Suc idx" w'] Inr rb rb' k show ?thesis by simp
  qed
qed

lemma run_blocks_from_append:
  "\<forall>u\<in>set pre. run_result u = Inr () \<Longrightarrow>
   run_blocks_from idx len (pre @ rest) False w =
     run_blocks_from (idx + length pre) len rest False (snd (run_blocks_from idx len pre False w))"
proof (induction pre arbitrary: idx w)
  case Nil
  show ?case by simp
next
  case (Cons b pre)
  then have ok: "run_result b = Inr ()" by simp
  from Cons.prems have pre: "\<forall>u\<in>set pre. run_result u = Inr ()" by simp
  show ?case
    using Cons.IH [OF pre] by (simp add: run_block_ok [OF ok])
qed

lemma loop_effects_append:
  "\<forall>u\<in>set pre. run_result u = Inr () \<Longrightarrow>
   loop_effects cs idx len (pre @ rest) False =
     loop_effects cs idx len pre False @ loop_effects cs (idx + length pre) len rest False"
  by (induction pre arbitrary: idx) simp_all

lemma executed_units_length: "length (executed_units bs) \<le> length bs"
  by (induction bs) simp_all

lemma executed_units_take: "executed_units bs = take (length (executed_units bs)) bs"
  by (induction bs) simp_all

lemma executed_units_first_failure:
  "k < length bs \<Longrightarrow> isl (run_result (bs ! k)) \<Longrightarrow> \<forall>i<k. \<not> isl (run_result (bs ! i)) \<Longrightarrow>
   executed_units bs = take (Suc k) bs"
proof (induction bs arbitrary: k)
  case Nil
  then show ?case by simp
next
  case (Cons b bs)
  show ?case
  proof (cases k)
    case 0
    with Cons.prems show ?thesis by simp
  next
    case (Suc j)
    with Cons.prems have b: "\<not> isl (run_result b)" by auto
    from Suc Cons.prems have "j < length bs" "isl (run_result (bs ! j))"
      "\<forall>i<j. \<not> isl (run_result (bs ! i))" by auto
    from Cons.IH [OF this] b Suc show ?thesis by simp
  qed
qed

lemma initialized_count:
  "length (filter (\<lambda>x. snd x = initialized) (concat (map unit_events bs))) = length bs"
  by (induction bs) (simp_all add: unit_events_def split: sum.splits)

lemma loop_effects_dry:
  "loop_effects cs idx len bs True =
     concat (map (\<lambda>(i, b). [BlockEvent (class_name b) initialized (cs @ [from_block b]),
                              dry_run_log i len b]) (enumerate idx bs))"
  by (induction bs arbitrary: idx) (simp_all add: body_effects_dry)

lemma run_blocks_emitted:
  "emitted w (snd (run_blocks plan d w)) = loop_effects (contexts w) 0 (length plan) plan d"
  by (simp add: run_blocks_def run_blocks_from_frame)

lemma run_block_fst_runner_error:
  "run_result b = Inl (RunnerError m codes) \<Longrightarrow>
   fst (run_block idx len b False w) =
     Inl (CliError (''Run invocation could not be completed as block failed: '' @ m)
            (Some (RunnerError m codes)))"
  by (simp add: run_block_runner_error)

lemma run_parser_error:
  "find_blocks env blks fr nsu f = Inl parser_err \<Longrightarrow>
   run env d fr nsu f blks w =
     (Inl parser_err,
      appended (setup_effects env d @
         [ParserCalled blks fr nsu f, CommandEvent Cli_aborted (contexts w)]) w)"
  by (simp add: run_def dry_run_setup_frame track_command_event_appended emit_appended)

lemma run_no_blocks:
  "find_blocks env blks fr nsu f = Inr [] \<Longrightarrow>
   run env d fr nsu f blks w =
     (Inr (),
      appended (setup_effects env d @
         [ParserCalled blks fr nsu f, CommandEvent Cli_aborted (contexts w),
          Log Info ''No valid blocks found.'' []]) w)"
  by (simp add: run_def dry_run_setup_frame track_command_event_appended emit_appended)

lemma run_invalid:
  "find_blocks env blks fr nsu f = Inr plan \<Longrightarrow> plan \<noteq> [] \<Longrightarrow>
   \<not> validate_block_sets env plan \<Longrightarrow>
   run env d fr nsu f blks w =
     (Inl (CliError ''Some ExtractLoadBlocks set failed validation.'' None),
      appended (setup_effects env d @
         [ParserCalled blks fr nsu f, ValidateCalled plan,
          CommandEvent Cli_aborted (contexts w)]) w)"
  by (simp add: run_def dry_run_setup_frame track_command_event_appended emit_appended)

lemma before_blocks_appended:
  "before_blocks env d fr nsu f blks plan w =
     appended (setup_effects env d @
        [ParserCalled blks fr nsu f, ValidateCalled plan,
         Log Debug ''All ExtractLoadBlocks validated, starting execution.'' []]) w"
  by (simp add: before_blocks_def dry_run_setup_frame emit_appended)

lemma run_valid:
  assumes "find_blocks env blks fr nsu f = Inr plan" "plan \<noteq> []"
    "validate_block_sets env plan"
  shows "run env d fr nsu f blks w =
     (case run_blocks plan d (before_blocks env d fr nsu f blks plan w) of
        (Inl err, w2) \<Rightarrow> (Inl err, appended ([CommandEvent Cli_failed (contexts w)]) w2)
      | (Inr u, w2) \<Rightarrow>
          (Inr (), appended ([CommandEvent Cli_completed (contexts w), LegacyTrackRun blks]) w2))"
proof -
  let ?w1 = "before_blocks env d fr nsu f blks plan w"
  obtain r w2 where rb: "run_blocks plan d ?w1 = (r, w2)" by (cases "run_blocks plan d ?w1")
  have "w2 = appended (loop_effects (contexts ?w1) 0 (length plan) plan d) ?w1"
    using run_blocks_from_frame [of 0 "length plan" plan d ?w1] rb
    by (simp add: run_blocks_def)
  then have c: "contexts w2 = contexts w" by (simp add: before_blocks_appended)
  have w1: "emit (Log Debug ''All ExtractLoadBlocks validated, starting execution.'' [])
          (emit (ValidateCalled plan) (emit (ParserCalled blks fr nsu f) (dry_run_setup env d w)))
        = ?w1"
    by (simp add: before_blocks_def)
  have "run env d fr nsu f blks w =
     (case run_blocks plan d ?w1 of
        (Inl err, w2) \<Rightarrow> (Inl err, track_command_event Cli_failed w2)
      | (Inr u, w2) \<Rightarrow>
          (Inr (), emit (LegacyTrackRun blks) (track_command_event Cli_completed w2)))"
    using assms by (simp add: run_def Let_def w1)
  then show ?thesis
    using rb c by (cases r) (simp_all add: track_command_event_appended emit_appended)
qed

lemma block_event_scopes_simps [simp]:
  "block_event_scopes [] = []"
  "block_event_scopes (e # es) = block_event_scope e @ block_event_scopes es"
  "block_event_scopes (es @ es') = block_event_scopes es @ block_event_scopes es'"
  by (simp_all add: block_event_scopes_def)

lemma command_event_scopes_simps [simp]:
  "command_event_scopes [] = []"
  "command_event_scopes (e # es) = command_event_scope e @ command_event_scopes es"
  "command_event_scopes (es @ es') = command_event_scopes es @ command_event_scopes es'"
  by (simp_all add: command_event_scopes_def)

lemma dry_run_log_scope [simp]:
  "block_event_scope (dry_run_log idx len b) = []"
  "command_event_scope (dry_run_log idx len b) = []"
  by (cases b; simp)+

lemma scopes_body:
  "block_event_scopes (body_effects cs idx len b d) =
     (if d then [(class_name b, cs @ [from_block b])]
      else [(class_name b, cs @ [from_block b]), (class_name b, cs @ [from_block b])])"
  "command_event_scopes (body_effects cs idx len b d) = []"
  by (cases b rule: body_effects_cases;
      cases d; simp add: body_effects_dry body_effects_ok body_effects_runner_error
       body_effects_other_error)+

lemma block_scopes_loop:
  "block_event_scopes (loop_effects cs idx len bs False) =
     concat (map (\<lambda>b. [(class_name b, cs @ [from_block b]), (class_name b, cs @ [from_block b])])
       (executed_units bs))"
  by (induction bs arbitrary: idx) (simp_all add: scopes_body)

lemma block_scopes_loop_dry:
  "block_event_scopes (loop_effects cs idx len bs True) =
     map (\<lambda>b. (class_name b, cs @ [from_block b])) bs"
  by (induction bs arbitrary: idx) (simp_all add: scopes_body)

lemma command_scopes_loop: "command_event_scopes (loop_effects cs idx len bs d) = []"
  by (induction bs arbitrary: idx) (simp_all add: scopes_body)

lemma setup_effects_scopes [simp]:
  "block_event_scopes (setup_effects env d) = []"
  "command_event_scopes (setup_effects env d) = []"
  by (simp_all add: dry_run_setup_def setup_effects_def start_def)

lemma run_blocks_contexts: "contexts (snd (run_blocks plan d w)) = contexts w"
  by (simp add: run_blocks_def run_blocks_from_frame)

lemma run_scopes:
  "contexts (snd (run env d fr nsu f blks w)) = contexts w
   \<and> set (command_event_scopes (emitted w (snd (run env d fr nsu f blks w)))) \<subseteq> {contexts w}"
proof (cases "find_blocks env blks fr nsu f")
  case (Inl parser_err)
  then show ?thesis by (simp add: run_parser_error)
next
  case (Inr plan)
  show ?thesis
  proof (cases "plan = []")
    case True
    with Inr show ?thesis by (simp add: run_no_blocks)
  next
    case ne: False
    show ?thesis
    proof (cases "validate_block_sets env plan")
      case False
      with Inr ne show ?thesis by (simp add: run_invalid)
    next
      case True
      let ?w1 = "before_blocks env d fr nsu f blks plan w"
      obtain r w2 where rb: "run_blocks plan d ?w1 = (r, w2)"
        by (cases "run_blocks plan d ?w1")
      have w2: "w2 = appended (loop_effects (contexts ?w1) 0 (length plan) plan d) ?w1"
        using run_blocks_from_frame [of 0 "length plan" plan d ?w1] rb
        by (simp add: run_blocks_def)
      show ?thesis
        using rb w2
        by (cases r)
          (simp_all add: run_valid [OF Inr ne True] before_blocks_appended command_scopes_loop)
    qed
  qed
qed

lemma dry_run_log_record:
  "dry_run_log idx len b =
     Log Info (''Dry run, but would have run block '' @ str_nat (idx + 1) @ ''/''
                 @ str_nat len @ ''.'')
       [(''block_type'', LStr (class_name b)),
        (''comprised_of'',
           case b of
             BlockSet nm plugins r \<Rightarrow> LStrs plugins
           | PluginCommandBlock nm sid cmd r \<Rightarrow> LStr (sid @ '':'' @ cmd))]"
  by (cases b) simp_all

lemma run_appended: "\<exists>es. snd (run env d fr nsu f blks w) = appended es w"
proof (cases "find_blocks env blks fr nsu f")
  case (Inl parser_err)
  then show ?thesis by (auto simp: run_parser_error)
next
  case (Inr plan)
  show ?thesis
  proof (cases "plan = []")
    case True
    with Inr show ?thesis by (auto simp: run_no_blocks)
  next
    case ne: False
    show ?thesis
    proof (cases "validate_block_sets env plan")
      case False
      with Inr ne show ?thesis by (auto simp: run_invalid)
    next
      case True
      let ?w1 = "before_blocks env d fr nsu f blks plan w"
      obtain r w2 where rb: "run_blocks plan d ?w1 = (r, w2)"
        by (cases "run_blocks plan d ?w1")
      have w2: "w2 = appended (loop_effects (contexts ?w1) 0 (length plan) plan d) ?w1"
        using run_blocks_from_frame [of 0 "length plan" plan d ?w1] rb
        by (simp add: run_blocks_def)
      show ?thesis
        using rb w2
        by (cases r) (auto simp: run_valid [OF Inr ne True] before_blocks_appended)
    qed
  qed
qed

section \<open>The claims\<close>

text \<open>
  Claim C1 (abort on first failure). Let unit \<open>k\<close> of a plan, run with \<open>dry_run\<close> false, be
  one whose \<^verbatim>\<open>run()\<close> raises. Then \<^verbatim>\<open>_run_blocks\<close> returns the same result and leaves the
  same trace as on the plan cut after unit \<open>k\<close>, so no later unit contributes anything; it
  raises; every awaited \<^verbatim>\<open>run()\<close> has an index of at most \<open>k\<close>; and at most \<open>k + 1\<close>
  "initialized" block events are emitted. When unit \<open>k\<close> is the first that raises, exactly the
  units \<open>0, ..., k\<close> are awaited, in this order, and exactly \<open>k + 1\<close> "initialized" events are
  emitted.
\<close>

theorem abort_on_first_failure:
  assumes "k < length plan" and "run_result (plan ! k) = Inl e"
  shows "run_blocks plan False w = run_blocks (take (Suc k) plan) False w
       \<and> isl (fst (run_blocks plan False w))
       \<and> set (awaited (emitted w (snd (run_blocks plan False w)))) \<subseteq> {..k}
       \<and> length (filter (\<lambda>x. snd x = initialized)
                 (block_events_of (emitted w (snd (run_blocks plan False w))))) \<le> Suc k
       \<and> ((\<forall>i<k. run_result (plan ! i) = Inr ()) \<longrightarrow>
            awaited (emitted w (snd (run_blocks plan False w))) = [0..<Suc k]
          \<and> length (filter (\<lambda>x. snd x = initialized)
                 (block_events_of (emitted w (snd (run_blocks plan False w))))) = Suc k)"
proof -
  let ?cut = "take (Suc k) plan"
  from assms have fails: "isl (run_result (plan ! k))" by simp
  have cut: "run_blocks plan False w = run_blocks ?cut False w"
    unfolding run_blocks_def by (rule run_blocks_from_cut [OF assms(1) fails])
  from assms(1) have "plan ! k \<in> set plan" by simp
  with fails have raises: "isl (fst (run_blocks plan False w))"
    by (auto simp: run_blocks_def run_blocks_from_isl)
  have len: "length (executed_units ?cut) \<le> Suc k"
    using executed_units_length [of ?cut] by simp
  have aw: "awaited (emitted w (snd (run_blocks plan False w))) = [0..<length (executed_units ?cut)]"
    by (simp add: cut run_blocks_emitted awaited_loop)
  have ini: "length (filter (\<lambda>x. snd x = initialized)
                 (block_events_of (emitted w (snd (run_blocks plan False w)))))
             = length (executed_units ?cut)"
    by (simp only: cut run_blocks_emitted block_events_loop initialized_count)
  have first: "executed_units ?cut = ?cut" if "\<forall>i<k. run_result (plan ! i) = Inr ()"
  proof -
    from that have "\<forall>i<k. \<not> isl (run_result (plan ! i))" by simp
    from executed_units_first_failure [OF assms(1) fails this]
    have "executed_units plan = ?cut" .
    moreover have "executed_units ?cut = take (Suc k) ?cut"
      using assms(1) fails that
      by (intro executed_units_first_failure) (simp_all)
    ultimately show ?thesis by simp
  qed
  from assms(1) have lc: "length ?cut = Suc k" by simp
  show ?thesis
    using cut raises len aw ini first lc by auto
qed

theorem abort_on_first_failure_witness:
  "1 < length example_plan
   \<and> run_result (example_plan ! 1) = Inl (RunnerError ''boom'' [1])
   \<and> run_blocks example_plan False (start []) =
       run_blocks (take (Suc 1) example_plan) False (start [])
   \<and> isl (fst (run_blocks example_plan False (start [])))
   \<and> awaited (emitted (start []) (snd (run_blocks example_plan False (start [])))) = [0, 1]
   \<and> length (filter (\<lambda>x. snd x = initialized)
         (block_events_of (emitted (start []) (snd (run_blocks example_plan False (start []))))))
       = 2"
proof -
  have h1: "1 < length example_plan" by (simp add: example_plan_def)
  have h2: "run_result (example_plan ! 1) = Inl (RunnerError ''boom'' [1])"
    by (simp add: example_plan_def)
  have h3: "\<forall>i<1. run_result (example_plan ! i) = Inr ()"
    by (simp add: example_plan_def)
  from abort_on_first_failure [OF h1 h2, of "start []"] h1 h2 h3
  show ?thesis by auto
qed

text \<open>
  Claim C2 (structured runner failure). Let the units before \<open>b\<close> return and let the
  \<^verbatim>\<open>run()\<close> of \<open>b\<close> raise a \<^verbatim>\<open>RunnerError\<close> with message \<open>m\<close> and exit codes \<open>codes\<close>. Then
  \<^verbatim>\<open>_run_blocks\<close> raises a \<^verbatim>\<open>CliError\<close> whose cause is that \<^verbatim>\<open>RunnerError\<close>, and what it
  emits after the units before \<open>b\<close> is exactly: the "initialized" event of \<open>b\<close>, the awaited
  \<^verbatim>\<open>run()\<close>, the error log record carrying the exit codes, and the "failed" event of \<open>b\<close>.
  Nothing of the units after \<open>b\<close> appears.
\<close>

theorem runner_error_handling:
  assumes "\<forall>u\<in>set pre. run_result u = Inr ()"
    and "run_result b = Inl (RunnerError m codes)"
  shows "fst (run_blocks (pre @ b # post) False w) =
           Inl (CliError (''Run invocation could not be completed as block failed: '' @ m)
                  (Some (RunnerError m codes)))
       \<and> emitted w (snd (run_blocks (pre @ b # post) False w)) =
           emitted w (snd (run_blocks pre False w)) @
           [BlockEvent (class_name b) initialized (contexts w @ [from_block b]),
            RunAwaited (length pre),
            Log Error ''Block run completed.''
              [(''set_number'', LNat (length pre)), (''block_type'', LStr (class_name b)),
               (''success'', LBool False), (''err'', LExn (RunnerError m codes)),
               (''exit_codes'', LCodes codes)],
            BlockEvent (class_name b) failed (contexts w @ [from_block b])]"
proof -
  let ?n = "length (pre @ b # post)"
  have "run_blocks_from 0 ?n (pre @ b # post) False w =
          run_blocks_from (length pre) ?n (b # post) False (snd (run_blocks_from 0 ?n pre False w))"
    using run_blocks_from_append [OF assms(1), of 0 ?n "b # post" w] by simp
  then have res: "fst (run_blocks (pre @ b # post) False w) =
           Inl (CliError (''Run invocation could not be completed as block failed: '' @ m)
                  (Some (RunnerError m codes)))"
    by (simp add: run_blocks_def run_block_runner_error [OF assms(2)])
  have "loop_effects (contexts w) 0 ?n (pre @ b # post) False =
          loop_effects (contexts w) 0 (length pre) pre False
            @ body_effects (contexts w) (length pre) ?n b False"
    using loop_effects_append [OF assms(1), of "contexts w" 0 ?n "b # post"] assms(2)
      loop_effects_len [of "contexts w" 0 ?n pre "length pre"]
    by simp
  then have eff: "emitted w (snd (run_blocks (pre @ b # post) False w)) =
           emitted w (snd (run_blocks pre False w)) @
           body_effects (contexts w) (length pre) ?n b False"
    by (simp only: run_blocks_emitted)
  show ?thesis
    using res eff by (simp add: body_effects_runner_error [OF assms(2)])
qed

theorem runner_error_handling_witness:
  "fst (run_blocks example_plan False (start [])) =
       Inl (CliError ''Run invocation could not be completed as block failed: boom''
              (Some (RunnerError ''boom'' [1])))
   \<and> emitted (start []) (snd (run_blocks example_plan False (start []))) =
       emitted (start [])
         (snd (run_blocks [BlockSet ''ExtractLoadBlocks'' [''tap-a'', ''target-b''] (Inr ())]
                 False (start []))) @
       [BlockEvent ''InvokerCommand'' initialized [PluginsTrackingContext [''dbt'']],
        RunAwaited 1,
        Log Error ''Block run completed.''
          [(''set_number'', LNat 1), (''block_type'', LStr ''InvokerCommand''),
           (''success'', LBool False), (''err'', LExn (RunnerError ''boom'' [1])),
           (''exit_codes'', LCodes [1])],
        BlockEvent ''InvokerCommand'' failed [PluginsTrackingContext [''dbt'']]]"
  using runner_error_handling
    [of "[BlockSet ''ExtractLoadBlocks'' [''tap-a'', ''target-b''] (Inr ())]"
        "PluginCommandBlock ''InvokerCommand'' ''dbt'' ''run'' (Inl (RunnerError ''boom'' [1]))"
        "''boom''" "[1]"
        "[PluginCommandBlock ''InvokerCommand'' ''dbt'' ''test'' (Inr ())]" "start []"]
  by (simp add: example_plan_def start_def)

text \<open>
  Claim C3 (per-unit event ordering). With \<open>dry_run\<close> false, the block events emitted by
  \<^verbatim>\<open>_run_blocks\<close> are, unit after unit in plan order over the units up to and including the
  first one that raises, the pair "initialized" and then "completed" when the unit's
  \<^verbatim>\<open>run()\<close> returned or "failed" when it raised. Both events of a unit therefore precede the
  "initialized" event of the next, and no "completed" event is emitted for a unit whose
  \<^verbatim>\<open>run()\<close> raised.
\<close>

theorem block_event_ordering:
  "block_events_of (emitted w (snd (run_blocks plan False w))) =
     concat (map unit_events (executed_units plan))
   \<and> executed_units plan = take (length (executed_units plan)) plan"
  using executed_units_take [of plan]
  by (simp only: run_blocks_emitted block_events_loop)

theorem block_event_ordering_witness:
  "block_events_of (emitted (start []) (snd (run_blocks example_plan False (start [])))) =
     [(''ExtractLoadBlocks'', initialized), (''ExtractLoadBlocks'', completed),
      (''InvokerCommand'', initialized), (''InvokerCommand'', failed)]
   \<and> executed_units example_plan = take 2 example_plan"
  using block_event_ordering [of "start []" example_plan]
  by (simp add: example_plan_def unit_events_def)

text \<open>
  Claim C4 (dry run). With \<open>dry_run\<close> true, \<^verbatim>\<open>_run_blocks\<close> returns normally and emits, for
  every unit of the plan in order, the unit's "initialized" block event followed by one
  info log record whose \<open>block_type\<close> is the unit's class name and whose \<open>comprised_of\<close> is the
  list of the plugins' identities for a block set, and \<open>plugin:command\<close> for a command block;
  no \<^verbatim>\<open>run()\<close> is awaited and the block events are one "initialized" per unit and nothing
  else.
\<close>

theorem dry_run_behaviour:
  "fst (run_blocks plan True w) = Inr ()
   \<and> emitted w (snd (run_blocks plan True w)) =
       concat (map (\<lambda>(idx, blk).
                 [BlockEvent (class_name blk) initialized (contexts w @ [from_block blk]),
                  Log Info (''Dry run, but would have run block '' @ str_nat (idx + 1) @ ''/''
                              @ str_nat (length plan) @ ''.'')
                    [(''block_type'', LStr (class_name blk)),
                     (''comprised_of'',
                        case blk of
                          BlockSet nm plugins r \<Rightarrow> LStrs plugins
                        | PluginCommandBlock nm sid cmd r \<Rightarrow> LStr (sid @ '':'' @ cmd))]])
              (enumerate 0 plan))
   \<and> awaited (emitted w (snd (run_blocks plan True w))) = []
   \<and> block_events_of (emitted w (snd (run_blocks plan True w))) =
       map (\<lambda>blk. (class_name blk, initialized)) plan"
proof -
  have "\<not> isl (fst (run_blocks plan True w))"
    by (simp add: run_blocks_def run_blocks_from_isl)
  then have res: "fst (run_blocks plan True w) = Inr ()" by (rule not_isl_unit)
  have eff: "emitted w (snd (run_blocks plan True w)) =
       concat (map (\<lambda>(idx, blk).
                 [BlockEvent (class_name blk) initialized (contexts w @ [from_block blk]),
                  Log Info (''Dry run, but would have run block '' @ str_nat (idx + 1) @ ''/''
                              @ str_nat (length plan) @ ''.'')
                    [(''block_type'', LStr (class_name blk)),
                     (''comprised_of'',
                        case blk of
                          BlockSet nm plugins r \<Rightarrow> LStrs plugins
                        | PluginCommandBlock nm sid cmd r \<Rightarrow> LStr (sid @ '':'' @ cmd))]])
              (enumerate 0 plan))"
    by (simp add: run_blocks_emitted loop_effects_dry dry_run_log_record)
  have aw: "awaited (emitted w (snd (run_blocks plan True w))) = []"
    by (simp add: run_blocks_emitted awaited_loop_dry)
  have ev: "block_events_of (emitted w (snd (run_blocks plan True w))) =
       map (\<lambda>blk. (class_name blk, initialized)) plan"
    by (simp add: run_blocks_emitted block_events_loop_dry)
  from res eff aw ev show ?thesis by (intro conjI)
qed

theorem dry_run_behaviour_witness:
  "fst (run_blocks example_plan True (start [])) = Inr ()
   \<and> emitted (start []) (snd (run_blocks example_plan True (start []))) =
       [BlockEvent ''ExtractLoadBlocks'' initialized [PluginsTrackingContext [''tap-a'', ''target-b'']],
        Log Info ''Dry run, but would have run block 1/3.''
          [(''block_type'', LStr ''ExtractLoadBlocks''),
           (''comprised_of'', LStrs [''tap-a'', ''target-b''])],
        BlockEvent ''InvokerCommand'' initialized [PluginsTrackingContext [''dbt'']],
        Log Info ''Dry run, but would have run block 2/3.''
          [(''block_type'', LStr ''InvokerCommand''), (''comprised_of'', LStr ''dbt:run'')],
        BlockEvent ''InvokerCommand'' initialized [PluginsTrackingContext [''dbt'']],
        Log Info ''Dry run, but would have run block 3/3.''
          [(''block_type'', LStr ''InvokerCommand''), (''comprised_of'', LStr ''dbt:test'')]]
   \<and> awaited (emitted (start []) (snd (run_blocks example_plan True (start [])))) = []"
  using dry_run_behaviour [of example_plan "start []"]
  by (simp add: example_plan_def start_def enumerate_eq_zip str_nat.simps digit_char_def
      upt_rec numeral_3_eq_3)

text \<open>
  Claim C5 (unstructured failure). Let the units before \<open>b\<close> return and let the \<^verbatim>\<open>run()\<close> of
  \<open>b\<close> raise an exception \<open>e\<close> that is not a \<^verbatim>\<open>RunnerError\<close>. Then \<^verbatim>\<open>_run_blocks\<close> raises \<open>e\<close>
  itself, unwrapped, and what it emits after the units before \<open>b\<close> is exactly: the
  "initialized" event of \<open>b\<close>, the awaited \<^verbatim>\<open>run()\<close>, and the "failed" event of \<open>b\<close>.
\<close>

theorem unstructured_failure_handling:
  assumes "\<forall>u\<in>set pre. run_result u = Inr ()"
    and "run_result b = Inl e" and "\<not> is_RunnerError e"
  shows "fst (run_blocks (pre @ b # post) False w) = Inl e
       \<and> emitted w (snd (run_blocks (pre @ b # post) False w)) =
           emitted w (snd (run_blocks pre False w)) @
           [BlockEvent (class_name b) initialized (contexts w @ [from_block b]),
            RunAwaited (length pre),
            BlockEvent (class_name b) failed (contexts w @ [from_block b])]"
proof -
  let ?n = "length (pre @ b # post)"
  have "run_blocks_from 0 ?n (pre @ b # post) False w =
          run_blocks_from (length pre) ?n (b # post) False (snd (run_blocks_from 0 ?n pre False w))"
    using run_blocks_from_append [OF assms(1), of 0 ?n "b # post" w] by simp
  then have res: "fst (run_blocks (pre @ b # post) False w) = Inl e"
    by (simp add: run_blocks_def run_block_other_error [OF assms(2,3)])
  have "loop_effects (contexts w) 0 ?n (pre @ b # post) False =
          loop_effects (contexts w) 0 (length pre) pre False
            @ body_effects (contexts w) (length pre) ?n b False"
    using loop_effects_append [OF assms(1), of "contexts w" 0 ?n "b # post"] assms(2)
      loop_effects_len [of "contexts w" 0 ?n pre "length pre"]
    by simp
  then have eff: "emitted w (snd (run_blocks (pre @ b # post) False w)) =
           emitted w (snd (run_blocks pre False w)) @
           body_effects (contexts w) (length pre) ?n b False"
    by (simp only: run_blocks_emitted)
  show ?thesis
    using res eff by (simp add: body_effects_other_error [OF assms(2,3)])
qed

theorem unstructured_failure_handling_witness:
  "\<not> is_RunnerError (OtherException ''ValueError'' ''bad'')
   \<and> fst (run_blocks
        [BlockSet ''ExtractLoadBlocks'' [''tap-a'', ''target-b''] (Inr ()),
         PluginCommandBlock ''InvokerCommand'' ''dbt'' ''run''
           (Inl (OtherException ''ValueError'' ''bad'')),
         PluginCommandBlock ''InvokerCommand'' ''dbt'' ''test'' (Inr ())] False (start []))
       = Inl (OtherException ''ValueError'' ''bad'')"
  using unstructured_failure_handling
    [of "[BlockSet ''ExtractLoadBlocks'' [''tap-a'', ''target-b''] (Inr ())]"
        "PluginCommandBlock ''InvokerCommand'' ''dbt'' ''run''
           (Inl (OtherException ''ValueError'' ''bad''))"
        "OtherException ''ValueError'' ''bad''"
        "[PluginCommandBlock ''InvokerCommand'' ''dbt'' ''test'' (Inr ())]" "start []"]
  by simp

text \<open>
  Claim C6 (whole-plan validation before execution). When parsing yields a non-empty plan,
  the first things \<^verbatim>\<open>run\<close> does after the dry-run log set-up (which awaits no \<^verbatim>\<open>run()\<close> and
  emits no block event) are the parser call and the call of \<^verbatim>\<open>validate_block_sets\<close> on the
  entire plan; every block event and every awaited \<^verbatim>\<open>run()\<close> comes after it. When validation fails, \<^verbatim>\<open>run\<close> raises the \<^verbatim>\<open>CliError\<close> of
  line 116 after emitting the run-level "aborted" event, and it awaits no \<^verbatim>\<open>run()\<close> and emits
  no block event.
\<close>

theorem validation_before_execution:
  assumes "find_blocks env blks fr nsu f = Inr plan" and "plan \<noteq> []"
  shows "(\<exists>rest. emitted w (snd (run env d fr nsu f blks w)) =
            setup_effects env d @ [ParserCalled blks fr nsu f, ValidateCalled plan] @ rest)
       \<and> awaited (setup_effects env d) = []
       \<and> block_events_of (setup_effects env d) = []
       \<and> (\<not> validate_block_sets env plan \<longrightarrow>
            fst (run env d fr nsu f blks w) =
              Inl (CliError ''Some ExtractLoadBlocks set failed validation.'' None)
          \<and> emitted w (snd (run env d fr nsu f blks w)) =
              setup_effects env d @
              [ParserCalled blks fr nsu f, ValidateCalled plan,
               CommandEvent Cli_aborted (contexts w)]
          \<and> awaited (emitted w (snd (run env d fr nsu f blks w))) = []
          \<and> block_events_of (emitted w (snd (run env d fr nsu f blks w))) = []
          \<and> command_events_of (emitted w (snd (run env d fr nsu f blks w))) = [Cli_aborted])"
proof (cases "validate_block_sets env plan")
  case False
  with assms show ?thesis by (simp add: run_invalid)
next
  case True
  let ?w1 = "before_blocks env d fr nsu f blks plan w"
  obtain r w2 where rb: "run_blocks plan d ?w1 = (r, w2)"
    by (cases "run_blocks plan d ?w1")
  have w2: "w2 = appended (loop_effects (contexts ?w1) 0 (length plan) plan d) ?w1"
    using run_blocks_from_frame [of 0 "length plan" plan d ?w1] rb
    by (simp add: run_blocks_def)
  show ?thesis
    using rb w2 True
    by (cases r) (simp_all add: run_valid [OF assms True] before_blocks_appended)
qed

theorem validation_before_execution_witness:
  "find_blocks (example_env (Inr example_plan) False)
      [''tap-a'', ''target-b'', ''dbt:run'', ''dbt:test''] False False False = Inr example_plan
   \<and> example_plan \<noteq> []
   \<and> \<not> validate_block_sets (example_env (Inr example_plan) False) example_plan
   \<and> fst (run (example_env (Inr example_plan) False) False False False False
          [''tap-a'', ''target-b'', ''dbt:run'', ''dbt:test''] (start [])) =
       Inl (CliError ''Some ExtractLoadBlocks set failed validation.'' None)
   \<and> emitted (start [])
        (snd (run (example_env (Inr example_plan) False) False False False False
          [''tap-a'', ''target-b'', ''dbt:run'', ''dbt:test''] (start []))) =
       [ParserCalled [''tap-a'', ''target-b'', ''dbt:run'', ''dbt:test''] False False False,
        ValidateCalled example_plan, CommandEvent Cli_aborted []]"
proof -
  let ?env = "example_env (Inr example_plan) False"
  let ?blks = "[''tap-a'', ''target-b'', ''dbt:run'', ''dbt:test'']"
  have h1: "find_blocks ?env ?blks False False False = Inr example_plan"
    by (simp add: example_env_def)
  have h2: "example_plan \<noteq> []" by (simp add: example_plan_def)
  have h3: "\<not> validate_block_sets ?env example_plan" by (simp add: example_env_def)
  have s: "setup_effects ?env False = []"
    by (simp add: setup_effects_def dry_run_setup_def start_def)
  from validation_before_execution [OF h1 h2, of "start []" False] h1 h2 h3 s
  show ?thesis by (simp add: start_def)
qed

text \<open>
  Claim C7 (pre-execution error propagation). When the block parser raises an exception,
  \<^verbatim>\<open>run\<close> raises that same exception, the only tracker event it emits is one run-level
  "aborted" event, and no \<^verbatim>\<open>run()\<close> is awaited.
\<close>

theorem parser_error_propagation:
  assumes "find_blocks env blks fr nsu f = Inl parser_err"
  shows "fst (run env d fr nsu f blks w) = Inl parser_err
       \<and> emitted w (snd (run env d fr nsu f blks w)) =
           setup_effects env d @
           [ParserCalled blks fr nsu f, CommandEvent Cli_aborted (contexts w)]
       \<and> command_events_of (emitted w (snd (run env d fr nsu f blks w))) = [Cli_aborted]
       \<and> block_events_of (emitted w (snd (run env d fr nsu f blks w))) = []
       \<and> awaited (emitted w (snd (run env d fr nsu f blks w))) = []"
  using assms by (simp add: run_parser_error)

theorem parser_error_propagation_witness:
  "find_blocks (example_env (Inl (OtherException ''ClickException'' ''unknown plugin'')) True)
      [''nope''] False False False = Inl (OtherException ''ClickException'' ''unknown plugin'')
   \<and> fst (run (example_env (Inl (OtherException ''ClickException'' ''unknown plugin'')) True)
          True False False False [''nope''] (start [])) =
       Inl (OtherException ''ClickException'' ''unknown plugin'')
   \<and> emitted (start [])
        (snd (run (example_env (Inl (OtherException ''ClickException'' ''unknown plugin'')) True)
          True False False False [''nope''] (start []))) =
       [Log Info ''Setting 'console' handler log level to 'debug' for dry run'' [],
        ChangeConsoleLogLevel,
        ParserCalled [''nope''] False False False, CommandEvent Cli_aborted []]"
proof -
  let ?env = "example_env (Inl (OtherException ''ClickException'' ''unknown plugin'')) True"
  have h1: "find_blocks ?env [''nope''] False False False =
      Inl (OtherException ''ClickException'' ''unknown plugin'')"
    by (simp add: example_env_def)
  have s: "setup_effects ?env True =
      [Log Info ''Setting 'console' handler log level to 'debug' for dry run'' [],
       ChangeConsoleLogLevel]"
    by (simp add: setup_effects_def dry_run_setup_def start_def example_env_def)
  from parser_error_propagation [OF h1, of True "start []"] h1 s
  show ?thesis by (simp add: start_def)
qed

text \<open>
  Claim C8 (scoped event context). Every block event of \<^verbatim>\<open>_run_blocks\<close> names the class of
  its unit and carries the tracker's prior contexts extended by the context derived from
  that unit, unit after unit in plan order. At the moment of each call that \<^verbatim>\<open>_run_blocks\<close>
  and \<^verbatim>\<open>run\<close> make, the contexts attached to the tracker are: for a block event, exactly the
  contexts that event carries; for every other call (an awaited \<^verbatim>\<open>run()\<close>, a log record, a
  run-level event, the legacy tracker), only the prior contexts. So the unit's context is
  attached for the single emission and for nothing else. After \<^verbatim>\<open>_run_blocks\<close> and after
  \<^verbatim>\<open>run\<close> the tracker's contexts are the prior ones, and every run-level event of \<^verbatim>\<open>run\<close>
  carries only them.
\<close>

theorem scoped_event_context:
  "contexts (snd (run_blocks plan d w)) = contexts w
   \<and> emitted_scopes w (snd (run_blocks plan d w)) =
       map (scope_of (contexts w)) (emitted w (snd (run_blocks plan d w)))
   \<and> block_event_scopes (emitted w (snd (run_blocks plan d w))) =
       (if d then map (\<lambda>blk. (class_name blk, contexts w @ [from_block blk])) plan
        else concat (map (\<lambda>blk. [(class_name blk, contexts w @ [from_block blk]),
                                   (class_name blk, contexts w @ [from_block blk])])
               (executed_units plan)))
   \<and> contexts (snd (run env d fr nsu f blks w)) = contexts w
   \<and> emitted_scopes w (snd (run env d fr nsu f blks w)) =
       map (scope_of (contexts w)) (emitted w (snd (run env d fr nsu f blks w)))
   \<and> set (command_event_scopes (emitted w (snd (run env d fr nsu f blks w)))) \<subseteq> {contexts w}"
proof -
  obtain es where es: "snd (run env d fr nsu f blks w) = appended es w"
    using run_appended by blast
  have "snd (run_blocks plan d w) = appended (loop_effects (contexts w) 0 (length plan) plan d) w"
    by (simp add: run_blocks_def run_blocks_from_frame)
  then show ?thesis
    using run_scopes [of env d fr nsu f blks w] es
    by (simp add: block_scopes_loop block_scopes_loop_dry)
qed

theorem scoped_event_context_witness:
  "block_event_scopes (emitted (start [OtherContext ''environment''])
      (snd (run_blocks example_plan False (start [OtherContext ''environment''])))) =
     [(''ExtractLoadBlocks'',
         [OtherContext ''environment'', PluginsTrackingContext [''tap-a'', ''target-b'']]),
      (''ExtractLoadBlocks'',
         [OtherContext ''environment'', PluginsTrackingContext [''tap-a'', ''target-b'']]),
      (''InvokerCommand'', [OtherContext ''environment'', PluginsTrackingContext [''dbt'']]),
      (''InvokerCommand'', [OtherContext ''environment'', PluginsTrackingContext [''dbt'']])]
   \<and> emitted_scopes (start [OtherContext ''environment''])
      (snd (run_blocks example_plan False (start [OtherContext ''environment'']))) =
     [[OtherContext ''environment'', PluginsTrackingContext [''tap-a'', ''target-b'']],
      [OtherContext ''environment''],
      [OtherContext ''environment''],
      [OtherContext ''environment'', PluginsTrackingContext [''tap-a'', ''target-b'']],
      [OtherContext ''environment'', PluginsTrackingContext [''dbt'']],
      [OtherContext ''environment''],
      [OtherContext ''environment''],
      [OtherContext ''environment'', PluginsTrackingContext [''dbt'']]]
   \<and> contexts (snd (run_blocks example_plan False (start [OtherContext ''environment''])))
       = [OtherContext ''environment'']"
  using scoped_event_context [of example_plan False "start [OtherContext ''environment'']"
      "example_env (Inr example_plan) True" False False False "[]"]
  by (simp add: example_plan_def run_blocks_emitted body_effects_ok body_effects_runner_error)

text \<open>
  Claim C9 (empty plan). When parsing succeeds with no blocks, \<^verbatim>\<open>run\<close> returns normally
  after emitting, beyond the dry-run log set-up and the parser call, exactly the run-level
  "aborted" event and the log record "No valid blocks found."; there is no run-level
  "completed" event, no block event and no awaited \<^verbatim>\<open>run()\<close>.
\<close>

theorem empty_plan_aborts:
  assumes "find_blocks env blks fr nsu f = Inr []"
  shows "fst (run env d fr nsu f blks w) = Inr ()
       \<and> emitted w (snd (run env d fr nsu f blks w)) =
           setup_effects env d @
           [ParserCalled blks fr nsu f, CommandEvent Cli_aborted (contexts w),
            Log Info ''No valid blocks found.'' []]
       \<and> command_events_of (emitted w (snd (run env d fr nsu f blks w))) = [Cli_aborted]
       \<and> block_events_of (emitted w (snd (run env d fr nsu f blks w))) = []
       \<and> awaited (emitted w (snd (run env d fr nsu f blks w))) = []"
  using assms by (simp add: run_no_blocks)

theorem empty_plan_aborts_witness:
  "find_blocks (example_env (Inr []) True) [] False False False = Inr []
   \<and> fst (run (example_env (Inr []) True) False False False False [] (start [])) = Inr ()
   \<and> emitted (start [])
        (snd (run (example_env (Inr []) True) False False False False [] (start []))) =
       [ParserCalled [] False False False, CommandEvent Cli_aborted [],
        Log Info ''No valid blocks found.'' []]"
proof -
  let ?env = "example_env (Inr []) True"
  have h1: "find_blocks ?env [] False False False = Inr []"
    by (simp add: example_env_def)
  have s: "setup_effects ?env False = []"
    by (simp add: setup_effects_def dry_run_setup_def start_def)
  from empty_plan_aborts [OF h1, of False "start []"] h1 s
  show ?thesis by (simp add: start_def)
qed

text \<open>
  Claim C10 (run-level completion). Let parsing yield a non-empty plan that passes
  validation. A dry run of the blocks never raises. When \<^verbatim>\<open>_run_blocks\<close> returns, \<^verbatim>\<open>run\<close>
  returns and appends the run-level "completed" event and then the call of the legacy
  tracker with the original tokens, and "completed" is its only run-level event. When
  \<^verbatim>\<open>_run_blocks\<close> raises, \<^verbatim>\<open>run\<close> raises the same exception and appends the run-level "failed"
  event, which is then its only run-level event.
\<close>

theorem run_level_completion:
  assumes "find_blocks env blks fr nsu f = Inr plan" and "plan \<noteq> []"
    and "validate_block_sets env plan"
  shows "(d \<longrightarrow> fst (run_blocks plan d (before_blocks env d fr nsu f blks plan w)) = Inr ())
       \<and> (case run_blocks plan d (before_blocks env d fr nsu f blks plan w) of
            (Inr u, w2) \<Rightarrow>
              fst (run env d fr nsu f blks w) = Inr ()
            \<and> emitted w (snd (run env d fr nsu f blks w)) =
                emitted w w2 @ [CommandEvent Cli_completed (contexts w), LegacyTrackRun blks]
            \<and> command_events_of (emitted w (snd (run env d fr nsu f blks w))) = [Cli_completed]
          | (Inl err, w2) \<Rightarrow>
              fst (run env d fr nsu f blks w) = Inl err
            \<and> emitted w (snd (run env d fr nsu f blks w)) =
                emitted w w2 @ [CommandEvent Cli_failed (contexts w)]
            \<and> command_events_of (emitted w (snd (run env d fr nsu f blks w))) = [Cli_failed])"
proof -
  let ?w1 = "before_blocks env d fr nsu f blks plan w"
  obtain r w2 where rb: "run_blocks plan d ?w1 = (r, w2)"
    by (cases "run_blocks plan d ?w1")
  have w2: "w2 = appended (loop_effects (contexts ?w1) 0 (length plan) plan d) ?w1"
    using run_blocks_from_frame [of 0 "length plan" plan d ?w1] rb
    by (simp add: run_blocks_def)
  have "\<not> isl (fst (run_blocks plan True ?w1))" if d
    by (simp add: run_blocks_def run_blocks_from_isl)
  then have dry: "d \<longrightarrow> fst (run_blocks plan d ?w1) = Inr ()"
    by (auto intro: not_isl_unit)
  have rest: "case run_blocks plan d ?w1 of
            (Inr u, w2) \<Rightarrow>
              fst (run env d fr nsu f blks w) = Inr ()
            \<and> emitted w (snd (run env d fr nsu f blks w)) =
                emitted w w2 @ [CommandEvent Cli_completed (contexts w), LegacyTrackRun blks]
            \<and> command_events_of (emitted w (snd (run env d fr nsu f blks w))) = [Cli_completed]
          | (Inl err, w2) \<Rightarrow>
              fst (run env d fr nsu f blks w) = Inl err
            \<and> emitted w (snd (run env d fr nsu f blks w)) =
                emitted w w2 @ [CommandEvent Cli_failed (contexts w)]
            \<and> command_events_of (emitted w (snd (run env d fr nsu f blks w))) = [Cli_failed]"
    using rb w2
    by (cases r)
      (simp_all add: run_valid [OF assms] before_blocks_appended command_events_loop)
  from dry rest show ?thesis by (rule conjI)
qed

theorem run_level_completion_witness:
  "find_blocks (example_env (Inr example_plan) True)
      [''tap-a'', ''target-b'', ''dbt:run'', ''dbt:test''] False False False = Inr example_plan
   \<and> example_plan \<noteq> []
   \<and> validate_block_sets (example_env (Inr example_plan) True) example_plan
   \<and> fst (run (example_env (Inr example_plan) True) True False False False
          [''tap-a'', ''target-b'', ''dbt:run'', ''dbt:test''] (start [])) = Inr ()
   \<and> command_events_of (emitted (start [])
        (snd (run (example_env (Inr example_plan) True) True False False False
          [''tap-a'', ''target-b'', ''dbt:run'', ''dbt:test''] (start [])))) = [Cli_completed]"
proof -
  let ?env = "example_env (Inr example_plan) True"
  let ?blks = "[''tap-a'', ''target-b'', ''dbt:run'', ''dbt:test'']"
  have h1: "find_blocks ?env ?blks False False False = Inr example_plan"
    by (simp add: example_env_def)
  have h2: "example_plan \<noteq> []" by (simp add: example_plan_def)
  have h3: "validate_block_sets ?env example_plan" by (simp add: example_env_def)
  from run_level_completion [OF h1 h2 h3, of True "start []"] h1 h2 h3
  show ?thesis by (auto split: prod.splits sum.splits)
qed

end
